theory Spec2Isabelle
  imports Main
begin

section \<open>The game state of script.js\<close>

text \<open>
  The script keeps its state in four global variables (\<open>board\<close>, \<open>currentPlayer\<close>,
  \<open>gameActive\<close>, \<open>gameMode\<close>) and in the page. A cell of the board is one of the strings
  \<open>''''\<close> (empty), \<open>''X''\<close> and \<open>''O''\<close>; the mode is \<open>''human-human''\<close> or
  \<open>''human-computer''\<close>. Of the page, the record keeps what carries game information:
  the text of the status display (the only place where a win is told from a draw), and
  the set of cells that carry the class \<open>win-highlight\<close> (the line \<open>checkForWin\<close> reports).
  The text and the \<open>x\<close>/\<open>o\<close> class of a cell are written together with the board array
  and repeat it, so they are left out. \<open>pending\<close> counts the calls of \<open>makeComputerMove\<close>
  that \<open>setTimeout\<close> has scheduled and that have not run yet; nothing in the script ever
  cancels one.
\<close>

record game =
  board :: "string list"
  currentPlayer :: string
  gameActive :: bool
  gameMode :: string
  statusText :: string
  highlight :: "int set"
  pending :: nat

text \<open>
  Reading \<open>board[i]\<close>: JavaScript gives \<open>undefined\<close> for an index outside the array
  (\<open>None\<close> here), and \<open>undefined\<close> is different from every string and equal to itself.
\<close>

definition board_at :: "string list \<Rightarrow> int \<Rightarrow> string option" where
  "board_at b i = (if 0 \<le> i \<and> i < int (length b) then Some (b ! nat i) else None)"

definition winningCombinations :: "(int \<times> int \<times> int) list" where
  "winningCombinations =
     [(0, 1, 2), (3, 4, 5), (6, 7, 8),
      (0, 3, 6), (1, 4, 7), (2, 5, 8),
      (0, 4, 8), (2, 4, 6)]"

definition updateStatus :: "string \<Rightarrow> game \<Rightarrow> game" where
  "updateStatus message s = s\<lparr>statusText := message\<rparr>"

definition initializeGame :: "game \<Rightarrow> game" where
  "initializeGame s =
     (let s = s\<lparr>board := ['''', '''', '''', '''', '''', '''', '''', '''', '''']\<rparr>;
          s = s\<lparr>currentPlayer := ''X''\<rparr>;
          s = s\<lparr>gameActive := True\<rparr>;
          s = updateStatus (''Player '' @ currentPlayer s @ '''s Turn'') s
      in s\<lparr>highlight := {}\<rparr>)"

subsection \<open>Win and draw\<close>

text \<open>
  The loop of \<open>checkForWin\<close> over the combinations still to be looked at: the result is
  the combination at which the loop breaks (its cells are the ones highlighted), or
  \<open>None\<close> when the loop runs to its end with \<open>roundWon\<close> still false.
\<close>

fun winLoop :: "string list \<Rightarrow> (int \<times> int \<times> int) list \<Rightarrow> (int \<times> int \<times> int) option" where
  "winLoop brd [] = None"
| "winLoop brd ((i0, i1, i2) # rest) =
     (let a = board_at brd i0; b = board_at brd i1; c = board_at brd i2 in
      if a = Some '''' \<or> b = Some '''' \<or> c = Some '''' then winLoop brd rest
      else if a = b \<and> b = c then Some (i0, i1, i2)
      else winLoop brd rest)"

definition winLine :: "string list \<Rightarrow> (int \<times> int \<times> int) option" where
  "winLine brd = winLoop brd winningCombinations"

definition checkForWin :: "string list \<Rightarrow> bool" where
  "checkForWin brd = (winLine brd \<noteq> None)"

text \<open>What a call of \<open>checkForWin\<close> does to the page.\<close>

definition highlightWin :: "game \<Rightarrow> game" where
  "highlightWin s =
     (case winLine (board s) of
        None \<Rightarrow> s
      | Some (i0, i1, i2) \<Rightarrow> s\<lparr>highlight := highlight s \<union> {i0, i1, i2}\<rparr>)"

definition checkForDraw :: "string list \<Rightarrow> bool" where
  "checkForDraw brd = (\<not> checkForWin brd \<and> list_all (\<lambda>cell. cell \<noteq> '''') brd)"

subsection \<open>A click on a cell\<close>

text \<open>
  \<open>i\<close> is \<open>clickedCellIndex\<close>. A value that is no index of the array (also \<open>NaN\<close>)
  reads \<open>undefined\<close>, which is not \<open>''''\<close>, so the handler returns at once.
\<close>

definition handleCellClick :: "int \<Rightarrow> game \<Rightarrow> game" where
  "handleCellClick i s =
     (if board_at (board s) i \<noteq> Some '''' \<or> \<not> gameActive s
         \<or> (gameMode s = ''human-computer'' \<and> currentPlayer s = ''O'')
      then s
      else
        let s = s\<lparr>board := (board s)[nat i := currentPlayer s]\<rparr> in
        if checkForWin (board s) then
          (updateStatus (''Player '' @ currentPlayer s @ '' Wins!'') (highlightWin s))
            \<lparr>gameActive := False\<rparr>
        else if checkForDraw (board s) then
          (updateStatus ''It's a Draw!'' s)\<lparr>gameActive := False\<rparr>
        else
          let s = s\<lparr>currentPlayer := (if currentPlayer s = ''X'' then ''O'' else ''X'')\<rparr>;
              s = updateStatus (''Player '' @ currentPlayer s @ '''s Turn'') s
          in if gameMode s = ''human-computer'' \<and> currentPlayer s = ''O'' \<and> gameActive s
             then s\<lparr>pending := Suc (pending s)\<rparr>
             else s)"

subsection \<open>The computer's move\<close>

definition availableCells :: "string list \<Rightarrow> int list" where
  "availableCells brd =
     filter (\<lambda>index. index \<noteq> - 1)
       (map (\<lambda>index. if brd ! index = '''' then int index else - 1) [0..<length brd])"

text \<open>The loop of the helper \<open>findWinningOrBlockingMove\<close> over the remaining combinations.\<close>

fun findLoop :: "string list \<Rightarrow> string \<Rightarrow> (int \<times> int \<times> int) list \<Rightarrow> int" where
  "findLoop brd playerToCheck [] = - 1"
| "findLoop brd playerToCheck ((a, b, c) # rest) =
     (let line = [board_at brd a, board_at brd b, board_at brd c] in
      if length (filter (\<lambda>cell. cell = Some playerToCheck) line) = 2 \<and> Some '''' \<in> set line
      then
        if board_at brd a = Some '''' \<and> Some playerToCheck = board_at brd b
             \<and> Some playerToCheck = board_at brd c then a
        else if board_at brd b = Some '''' \<and> Some playerToCheck = board_at brd a
             \<and> Some playerToCheck = board_at brd c then b
        else if board_at brd c = Some '''' \<and> Some playerToCheck = board_at brd a
             \<and> Some playerToCheck = board_at brd b then c
        else findLoop brd playerToCheck rest
      else findLoop brd playerToCheck rest)"

definition findWinningOrBlockingMove :: "string list \<Rightarrow> string \<Rightarrow> int" where
  "findWinningOrBlockingMove brd playerToCheck = findLoop brd playerToCheck winningCombinations"

text \<open>The loops of rules 5 and 6: the first of the given cells that is empty, or \<open>-1\<close>.\<close>

fun firstEmpty :: "string list \<Rightarrow> int list \<Rightarrow> int" where
  "firstEmpty brd [] = - 1"
| "firstEmpty brd (i # rest) = (if board_at brd i = Some '''' then i else firstEmpty brd rest)"

text \<open>
  The value of the variable \<open>bestMove\<close> after rules 1 to 6 (line 212 of the script), with
  \<open>computerPlayer = ''O''\<close> and \<open>humanPlayer = ''X''\<close>.
\<close>

definition strategicMove :: "string list \<Rightarrow> int" where
  "strategicMove brd =
     (let bestMove = findWinningOrBlockingMove brd ''O'';
          bestMove = (if bestMove = - 1 then findWinningOrBlockingMove brd ''X'' else bestMove);
          bestMove = (if bestMove = - 1 \<and> board_at brd 4 = Some '''' then 4 else bestMove);
          bestMove =
            (if bestMove = - 1 then
               if board_at brd 0 = Some ''X'' \<and> board_at brd 8 = Some '''' then 8
               else if board_at brd 2 = Some ''X'' \<and> board_at brd 6 = Some '''' then 6
               else if board_at brd 6 = Some ''X'' \<and> board_at brd 2 = Some '''' then 2
               else if board_at brd 8 = Some ''X'' \<and> board_at brd 0 = Some '''' then 0
               else bestMove
             else bestMove);
          bestMove = (if bestMove = - 1 then firstEmpty brd [0, 2, 6, 8] else bestMove);
          bestMove = (if bestMove = - 1 then firstEmpty brd [1, 3, 5, 7] else bestMove)
      in bestMove)"

text \<open>
  The value of \<open>bestMove\<close> after the fallback (line 216). \<open>r\<close> stands for the number
  \<open>Math.floor(Math.random() * availableCells.length)\<close>, which JavaScript draws from
  \<open>0 .. availableCells.length - 1\<close>; the theorems that reach the fallback assume
  \<open>r < length (availableCells brd)\<close>.
\<close>

definition bestMove :: "string list \<Rightarrow> nat \<Rightarrow> int" where
  "bestMove brd r =
     (if strategicMove brd = - 1 \<and> length (availableCells brd) > 0
      then availableCells brd ! r
      else strategicMove brd)"

definition makeComputerMove :: "nat \<Rightarrow> game \<Rightarrow> game" where
  "makeComputerMove r s =
     (if \<not> gameActive s then s
      else if length (availableCells (board s)) = 0 then highlightWin s
      else if bestMove (board s) r \<noteq> - 1 then
        let s = s\<lparr>board := (board s)[nat (bestMove (board s) r) := ''O'']\<rparr> in
        if checkForWin (board s) then
          (updateStatus (''Player '' @ ''O'' @ '' Wins!'') (highlightWin s))\<lparr>gameActive := False\<rparr>
        else if checkForDraw (board s) then
          (updateStatus ''It's a Draw!'' s)\<lparr>gameActive := False\<rparr>
        else
          let s = s\<lparr>currentPlayer := ''X''\<rparr>
          in updateStatus (''Player '' @ currentPlayer s @ '''s Turn'') s
      else s)"

text \<open>
  A timer set by \<open>handleCellClick\<close> runs out: one scheduled call of \<open>makeComputerMove\<close>
  runs. Without a scheduled call there is nothing to run.
\<close>

definition fire :: "nat \<Rightarrow> game \<Rightarrow> game" where
  "fire r s = (if pending s = 0 then s else makeComputerMove r (s\<lparr>pending := pending s - 1\<rparr>))"

subsection \<open>The two screens\<close>

definition showModeSelectionScreen :: "game \<Rightarrow> game" where
  "showModeSelectionScreen s = initializeGame (s\<lparr>gameMode := ''human-human''\<rparr>)"

text \<open>\<open>mode\<close> is the value of the radio button that is checked.\<close>

definition showGameScreen :: "string \<Rightarrow> game \<Rightarrow> game" where
  "showGameScreen mode s = initializeGame (s\<lparr>gameMode := mode\<rparr>)"

text \<open>
  The globals as lines 14 to 17 declare them. The first text of the status display comes
  from the HTML page; \<open>initializeGame\<close> overwrites it when the page has loaded (line 282),
  before anything reads it.
\<close>

definition scriptStart :: game where
  "scriptStart =
     \<lparr>board = ['''', '''', '''', '''', '''', '''', '''', '''', ''''], currentPlayer = ''X'',
      gameActive = True, gameMode = ''human-human'', statusText = '''', highlight = {},
      pending = 0\<rparr>"

definition pageLoaded :: game where
  "pageLoaded = showModeSelectionScreen scriptStart"

section \<open>Notions used to state the properties\<close>

text \<open>
  Written after the specification, not after the script: on a board of nine cells, a
  winning line is matched when its three cells are not empty and hold the same mark.
\<close>

definition aligned :: "string list \<Rightarrow> int \<times> int \<times> int \<Rightarrow> bool" where
  "aligned brd l =
     (case l of (i0, i1, i2) \<Rightarrow>
        brd ! nat i0 \<noteq> '''' \<and> brd ! nat i0 = brd ! nat i1 \<and> brd ! nat i1 = brd ! nat i2)"

definition in_board :: "string list \<Rightarrow> int \<times> int \<times> int \<Rightarrow> bool" where
  "in_board brd l =
     (case l of (i0, i1, i2) \<Rightarrow>
        0 \<le> i0 \<and> i0 < int (length brd) \<and> 0 \<le> i1 \<and> i1 < int (length brd)
        \<and> 0 \<le> i2 \<and> i2 < int (length brd))"

text \<open>
  A game in progress is driven by two kinds of events: a click on a cell, and a timer
  running out. A move is accepted when it changes the board.
\<close>

datatype move = Click int | Fire nat

fun step :: "move \<Rightarrow> game \<Rightarrow> game" where
  "step (Click i) s = handleCellClick i s"
| "step (Fire r) s = fire r s"

fun play :: "move list \<Rightarrow> game \<Rightarrow> game" where
  "play [] s = s"
| "play (m # ms) s = play ms (step m s)"

fun accepted :: "move list \<Rightarrow> game \<Rightarrow> nat" where
  "accepted [] s = 0"
| "accepted (m # ms) s =
     (if board (step m s) \<noteq> board s then 1 else 0) + accepted ms (step m s)"

text \<open>
  When \<open>handleCellClick\<close> gets past its first test, and when \<open>makeComputerMove\<close> gets
  to the assignment \<open>board[bestMove] = computerPlayer\<close>.
\<close>

definition click_accepted :: "int \<Rightarrow> game \<Rightarrow> bool" where
  "click_accepted i s \<longleftrightarrow>
     board_at (board s) i = Some '''' \<and> gameActive s
     \<and> \<not> (gameMode s = ''human-computer'' \<and> currentPlayer s = ''O'')"

definition computer_moves :: "nat \<Rightarrow> game \<Rightarrow> bool" where
  "computer_moves r s \<longleftrightarrow>
     gameActive s \<and> availableCells (board s) \<noteq> [] \<and> bestMove (board s) r \<noteq> - 1"

text \<open>
  The invariant of a game without a reset, after \<open>n\<close> accepted moves: the board has nine
  cells, at most one call of \<open>makeComputerMove\<close> is scheduled, and only while the computer
  is to move, and the parity of \<open>n\<close> tells whose turn it is.
\<close>

definition turn_inv :: "game \<Rightarrow> nat \<Rightarrow> bool" where
  "turn_inv s n =
     (length (board s) = 9 \<and> pending s \<le> 1
      \<and> (pending s = 1 \<longrightarrow> gameActive s \<and> currentPlayer s = ''O'' \<and> gameMode s = ''human-computer'')
      \<and> (gameActive s \<longrightarrow> currentPlayer s = (if even n then ''X'' else ''O''))
      \<and> (\<not> gameActive s \<longrightarrow> currentPlayer s = (if even n then ''O'' else ''X'')))"

section \<open>Unfolding the script\<close>

lemmas policy_defs =
  strategicMove_def findWinningOrBlockingMove_def winningCombinations_def board_at_def

lemmas game_defs =
  updateStatus_def initializeGame_def showModeSelectionScreen_def showGameScreen_def
  checkForWin_def checkForDraw_def winLine_def highlightWin_def scriptStart_def pageLoaded_def

lemmas move_defs =
  handleCellClick_def makeComputerMove_def fire_def bestMove_def availableCells_def

lemma board_at_in_range:
  "0 \<le> i \<Longrightarrow> i < int (length brd) \<Longrightarrow> board_at brd i = Some (brd ! nat i)"
  by (simp add: board_at_def)

lemma board_at_empty_iff:
  "board_at brd i = Some '''' \<longleftrightarrow> 0 \<le> i \<and> i < int (length brd) \<and> brd ! nat i = ''''"
  by (auto simp: board_at_def)

lemma aligned_triple:
  "aligned brd (i0, i1, i2) \<longleftrightarrow>
     brd ! nat i0 \<noteq> '''' \<and> brd ! nat i0 = brd ! nat i1 \<and> brd ! nat i1 = brd ! nat i2"
  by (simp add: aligned_def)

section \<open>Win detection\<close>

lemma winLoop_find:
  "\<forall>l \<in> set ls. in_board brd l \<Longrightarrow> winLoop brd ls = find (aligned brd) ls"
proof (induction ls)
  case Nil
  show ?case by simp
next
  case (Cons l ls)
  obtain i0 i1 i2 where l: "l = (i0, i1, i2)" by (cases l) auto
  from Cons.prems have r: "in_board brd (i0, i1, i2)" by (simp add: l)
  from Cons have ih: "winLoop brd ls = find (aligned brd) ls" by simp
  from r show ?case
    by (auto simp: l ih in_board_def aligned_triple board_at_in_range Let_def)
qed

lemma lines_in_board: "length brd = 9 \<Longrightarrow> \<forall>l \<in> set winningCombinations. in_board brd l"
  by (simp add: winningCombinations_def in_board_def)

lemma winLine_find: "length brd = 9 \<Longrightarrow> winLine brd = find (aligned brd) winningCombinations"
  unfolding winLine_def by (rule winLoop_find) (rule lines_in_board)

lemma checkForWin_iff:
  "length brd = 9 \<Longrightarrow> checkForWin brd \<longleftrightarrow> (\<exists>l \<in> set winningCombinations. aligned brd l)"
  by (auto simp: checkForWin_def winLine_find find_None_iff)

text \<open>
  C3. On a board of nine cells, \<open>checkForWin\<close> goes through the eight winning lines in the
  order row 0, row 1, row 2, column 0, column 1, column 2, diagonal 0-4-8, diagonal 2-4-6.
  The line it reports (the one whose cells it highlights) is the first in that order whose
  three cells are not empty and equal, and it returns true exactly when there is such a
  line; on a board without one it reports no win and highlights nothing.
\<close>

theorem win_reports_first_aligned_line:
  assumes "length brd = 9"
  shows "winningCombinations =
           [(0, 1, 2), (3, 4, 5), (6, 7, 8), (0, 3, 6), (1, 4, 7), (2, 5, 8), (0, 4, 8), (2, 4, 6)]
         \<and> winLine brd = find (aligned brd) winningCombinations
         \<and> (checkForWin brd \<longleftrightarrow> (\<exists>l \<in> set winningCombinations. aligned brd l))
         \<and> highlight (highlightWin (s\<lparr>board := brd\<rparr>)) =
             (case find (aligned brd) winningCombinations of
                None \<Rightarrow> highlight s
              | Some (i0, i1, i2) \<Rightarrow> highlight s \<union> {i0, i1, i2})"
  using assms
  by (simp add: winLine_find checkForWin_iff highlightWin_def)
    (simp add: winningCombinations_def)

text \<open>
  Two rows are complete at once on this (constructed) board; the top row comes first.
\<close>

theorem win_reports_first_aligned_line_witness:
  "length [''X'', ''X'', ''X'', ''O'', ''O'', ''O'', '''', '''', ''''] = 9
   \<and> winLine [''X'', ''X'', ''X'', ''O'', ''O'', ''O'', '''', '''', ''''] = Some (0, 1, 2)
   \<and> checkForWin [''X'', ''X'', ''X'', ''O'', ''O'', ''O'', '''', '''', '''']
   \<and> highlight (highlightWin
         (pageLoaded\<lparr>board := [''X'', ''X'', ''X'', ''O'', ''O'', ''O'', '''', '''', '''']\<rparr>)) = {0, 1, 2}"
proof -
  let ?b = "[''X'', ''X'', ''X'', ''O'', ''O'', ''O'', '''', '''', '''']"
  have len: "length ?b = 9" by simp
  have f: "find (aligned ?b) winningCombinations = Some (0, 1, 2)"
    by (simp add: winningCombinations_def aligned_triple)
  have h: "highlight pageLoaded = {}"
    by (simp add: game_defs)
  from win_reports_first_aligned_line [OF len, of pageLoaded]
  have "winLine ?b = find (aligned ?b) winningCombinations"
    and "checkForWin ?b \<longleftrightarrow> (\<exists>l \<in> set winningCombinations. aligned ?b l)"
    and "highlight (highlightWin (pageLoaded\<lparr>board := ?b\<rparr>)) =
           (case find (aligned ?b) winningCombinations of
              None \<Rightarrow> highlight pageLoaded
            | Some (i0, i1, i2) \<Rightarrow> highlight pageLoaded \<union> {i0, i1, i2})"
    by blast+
  moreover have "\<exists>l \<in> set winningCombinations. aligned ?b l"
    using f by (meson find_Some_iff nth_mem)
  ultimately show ?thesis using len f h by simp
qed

section \<open>Clicks that are ignored\<close>

text \<open>
  C4. A click on a cell that is not empty (or on no cell of the board at all), and a
  click while the game is not active, makes \<open>handleCellClick\<close> return at once: the whole
  state, so the board, the current player and the status, is what it was.
\<close>

theorem rejected_click_changes_nothing:
  "board_at (board s) i \<noteq> Some '''' \<or> \<not> gameActive s \<Longrightarrow> handleCellClick i s = s"
  by (auto simp: handleCellClick_def)

text \<open>
  A second click on cell 0, and a click after X has won with the top row.
\<close>

theorem rejected_click_changes_nothing_witness:
  "board_at (board (handleCellClick 0 (showGameScreen ''human-human'' pageLoaded))) 0 = Some ''X''
   \<and> handleCellClick 0 (handleCellClick 0 (showGameScreen ''human-human'' pageLoaded))
       = handleCellClick 0 (showGameScreen ''human-human'' pageLoaded)
   \<and> \<not> gameActive (play [Click 0, Click 3, Click 1, Click 4, Click 2]
                        (showGameScreen ''human-human'' pageLoaded))
   \<and> handleCellClick 8 (play [Click 0, Click 3, Click 1, Click 4, Click 2]
                           (showGameScreen ''human-human'' pageLoaded))
       = play [Click 0, Click 3, Click 1, Click 4, Click 2]
           (showGameScreen ''human-human'' pageLoaded)"
proof -
  let ?s1 = "handleCellClick 0 (showGameScreen ''human-human'' pageLoaded)"
  let ?s2 = "play [Click 0, Click 3, Click 1, Click 4, Click 2]
               (showGameScreen ''human-human'' pageLoaded)"
  have a: "board_at (board ?s1) 0 = Some ''X''"
    by (simp add: handleCellClick_def game_defs winningCombinations_def board_at_def)
  have b: "\<not> gameActive ?s2"
    by (simp add: handleCellClick_def game_defs winningCombinations_def board_at_def)
  from a have "handleCellClick 0 ?s1 = ?s1"
    using rejected_click_changes_nothing [of ?s1 0] by simp
  moreover from b have "handleCellClick 8 ?s2 = ?s2"
    using rejected_click_changes_nothing [of ?s2 8] by simp
  ultimately show ?thesis using a b by simp
qed

text \<open>
  C9. In the mode \<open>human-computer\<close>, a click that arrives while \<open>currentPlayer\<close> is
  \<open>O\<close> changes nothing: no click places a mark for the computer.
\<close>

theorem click_on_computer_turn_ignored:
  "gameMode s = ''human-computer'' \<Longrightarrow> currentPlayer s = ''O'' \<Longrightarrow> handleCellClick i s = s"
  by (simp add: handleCellClick_def)

text \<open>
  After the human's first move, before the timer has run out, a click on the free cell 5.
\<close>

theorem click_on_computer_turn_ignored_witness:
  "gameMode (handleCellClick 0 (showGameScreen ''human-computer'' pageLoaded)) = ''human-computer''
   \<and> currentPlayer (handleCellClick 0 (showGameScreen ''human-computer'' pageLoaded)) = ''O''
   \<and> board_at (board (handleCellClick 0 (showGameScreen ''human-computer'' pageLoaded))) 5 = Some ''''
   \<and> handleCellClick 5 (handleCellClick 0 (showGameScreen ''human-computer'' pageLoaded))
       = handleCellClick 0 (showGameScreen ''human-computer'' pageLoaded)"
proof -
  let ?s1 = "handleCellClick 0 (showGameScreen ''human-computer'' pageLoaded)"
  have a: "gameMode ?s1 = ''human-computer''" and b: "currentPlayer ?s1 = ''O''"
    and c: "board_at (board ?s1) 5 = Some ''''"
    by (simp_all add: handleCellClick_def game_defs winningCombinations_def board_at_def)
  from click_on_computer_turn_ignored [OF a b, of 5] a b c show ?thesis by simp
qed

section \<open>The computer's choice on two boards\<close>

text \<open>
  C6. On the board with X in cells 0 and 1 and nothing else, the search for a winning move
  of O finds none, the search for a move that blocks X returns 2, and 2 is the move chosen.
\<close>

theorem block_top_row:
  "findWinningOrBlockingMove [''X'', ''X'', '''', '''', '''', '''', '''', '''', ''''] ''O'' = - 1
   \<and> findWinningOrBlockingMove [''X'', ''X'', '''', '''', '''', '''', '''', '''', ''''] ''X'' = 2
   \<and> bestMove [''X'', ''X'', '''', '''', '''', '''', '''', '''', ''''] r = 2"
  by (simp add: bestMove_def policy_defs)

text \<open>
  C7. On the board with X in cell 0, O in cell 4 and nothing else, neither search finds a
  move, the centre is taken, and the first of the four corner tests (X in 0, 8 empty)
  chooses 8.
\<close>

theorem opposite_corner:
  "findWinningOrBlockingMove [''X'', '''', '''', '''', ''O'', '''', '''', '''', ''''] ''O'' = - 1
   \<and> findWinningOrBlockingMove [''X'', '''', '''', '''', ''O'', '''', '''', '''', ''''] ''X'' = - 1
   \<and> board_at [''X'', '''', '''', '''', ''O'', '''', '''', '''', ''''] 4 = Some ''O''
   \<and> bestMove [''X'', '''', '''', '''', ''O'', '''', '''', '''', ''''] r = 8"
  by (simp add: bestMove_def policy_defs)

section \<open>The computer chooses an empty cell\<close>

lemma findLoop_empty:
  "findLoop brd p ls = - 1 \<or> board_at brd (findLoop brd p ls) = Some ''''"
proof (induction ls)
  case Nil
  show ?case by simp
next
  case (Cons l ls)
  obtain a b c where l: "l = (a, b, c)" by (cases l) auto
  from Cons show ?case by (auto simp: l Let_def)
qed

lemma firstEmpty_empty:
  "firstEmpty brd is = - 1 \<or> board_at brd (firstEmpty brd is) = Some ''''"
  by (induction "is") auto

lemma firstEmpty_none:
  "firstEmpty brd is = - 1 \<Longrightarrow> i \<in> set is \<Longrightarrow> board_at brd i \<noteq> Some ''''"
  by (induction "is") (auto simp: board_at_empty_iff split: if_splits)

lemma strategicMove_empty:
  "strategicMove brd = - 1 \<or> board_at brd (strategicMove brd) = Some ''''"
  using findLoop_empty [of brd "''O''" winningCombinations]
    findLoop_empty [of brd "''X''" winningCombinations]
    firstEmpty_empty [of brd "[0, 2, 6, 8]"] firstEmpty_empty [of brd "[1, 3, 5, 7]"]
  unfolding strategicMove_def findWinningOrBlockingMove_def Let_def
  by (auto split: if_splits)

lemma strategicMove_none:
  assumes "strategicMove brd = - 1" and "i \<in> {0, 1, 2, 3, 4, 5, 6, 7, 8}"
  shows "board_at brd i \<noteq> Some ''''"
proof -
  from assms(1) have c: "board_at brd 4 \<noteq> Some ''''"
    and k: "firstEmpty brd [0, 2, 6, 8] = - 1" and d: "firstEmpty brd [1, 3, 5, 7] = - 1"
    unfolding strategicMove_def Let_def by (auto split: if_splits)
  from firstEmpty_none [OF k] firstEmpty_none [OF d] c assms(2) show ?thesis by auto
qed

lemma empty_cell_index:
  assumes "length brd = 9" and "'''' \<in> set brd"
  shows "\<exists>i \<in> {0, 1, 2, 3, 4, 5, 6, 7, 8}. board_at brd i = Some ''''"
proof -
  from assms(2) obtain n where n: "n < length brd" "brd ! n = ''''"
    by (auto simp: in_set_conv_nth)
  with assms(1) have "int n \<in> {0, 1, 2, 3, 4, 5, 6, 7, 8}" by auto
  moreover from n have "board_at brd (int n) = Some ''''" by (simp add: board_at_def)
  ultimately show ?thesis by blast
qed

lemma strategicMove_found:
  "length brd = 9 \<Longrightarrow> '''' \<in> set brd \<Longrightarrow> strategicMove brd \<noteq> - 1"
  using empty_cell_index strategicMove_none by blast

lemma set_availableCells:
  "set (availableCells brd) = {int n |n. n < length brd \<and> brd ! n = ''''}"
  by (auto simp: availableCells_def)

lemma availableCells_empty_iff: "availableCells brd = [] \<longleftrightarrow> '''' \<notin> set brd"
proof -
  have "availableCells brd = [] \<longleftrightarrow> set (availableCells brd) = {}" by simp
  also have "\<dots> \<longleftrightarrow> '''' \<notin> set brd"
    unfolding set_availableCells by (auto simp: in_set_conv_nth)
  finally show ?thesis .
qed

lemma availableCells_nth_empty:
  "r < length (availableCells brd) \<Longrightarrow> board_at brd (availableCells brd ! r) = Some ''''"
proof -
  assume "r < length (availableCells brd)"
  then have "availableCells brd ! r \<in> set (availableCells brd)" by simp
  then show ?thesis unfolding set_availableCells by (auto simp: board_at_def)
qed



lemma bestMove_empty:
  assumes "'''' \<in> set brd" and "length brd = 9 \<or> r < length (availableCells brd)"
  shows "board_at brd (bestMove brd r) = Some ''''"
proof (cases "strategicMove brd = - 1")
  case True
  with assms strategicMove_found have r: "r < length (availableCells brd)" by blast
  from assms(1) have "availableCells brd \<noteq> []" by (simp add: availableCells_empty_iff)
  with True r show ?thesis by (simp add: bestMove_def availableCells_nth_empty)
next
  case False
  with strategicMove_empty [of brd] show ?thesis by (simp add: bestMove_def)
qed

text \<open>
  C8. On a board of nine cells with at least one empty cell, rules 1 to 6 leave
  \<open>bestMove\<close> different from \<open>-1\<close>, so the test of the fallback is false and the random
  number is never looked at: the move is the same for every draw.
\<close>

theorem fallback_unreachable:
  assumes "length brd = 9" and "'''' \<in> set brd"
  shows "strategicMove brd \<noteq> - 1
         \<and> bestMove brd r = strategicMove brd
         \<and> (\<forall>r'. bestMove brd r' = bestMove brd r)"
  using strategicMove_found [OF assms] by (simp add: bestMove_def)

text \<open>
  With X in the centre and nothing else, rule 5 takes the corner 0.
\<close>

theorem fallback_unreachable_witness:
  "length ['''', '''', '''', '''', ''X'', '''', '''', '''', ''''] = 9
   \<and> '''' \<in> set ['''', '''', '''', '''', ''X'', '''', '''', '''', '''']
   \<and> strategicMove ['''', '''', '''', '''', ''X'', '''', '''', '''', ''''] = 0
   \<and> bestMove ['''', '''', '''', '''', ''X'', '''', '''', '''', ''''] 7 = 0"
proof -
  let ?b = "['''', '''', '''', '''', ''X'', '''', '''', '''', '''']"
  have len: "length ?b = 9" and e: "'''' \<in> set ?b" by simp_all
  have v: "strategicMove ?b = 0" by (simp add: policy_defs)
  from fallback_unreachable [OF len e, of 7] have "bestMove ?b 7 = strategicMove ?b" by blast
  with len e v show ?thesis by simp
qed

section \<open>What a move does to the state\<close>

lemma highlightWin_fields [simp]:
  "board (highlightWin s) = board s" "currentPlayer (highlightWin s) = currentPlayer s"
  "gameActive (highlightWin s) = gameActive s" "gameMode (highlightWin s) = gameMode s"
  "statusText (highlightWin s) = statusText s" "pending (highlightWin s) = pending s"
  by (simp_all add: highlightWin_def split: option.split prod.split)

lemma list_update_changes: "n < length xs \<Longrightarrow> xs ! n \<noteq> v \<Longrightarrow> xs[n := v] \<noteq> xs"
  by (metis nth_list_update_eq)

lemma click_not_accepted: "\<not> click_accepted i s \<Longrightarrow> handleCellClick i s = s"
  by (auto simp: click_accepted_def handleCellClick_def)

lemma click_board:
  "click_accepted i s \<Longrightarrow> board (handleCellClick i s) = (board s)[nat i := currentPlayer s]"
  by (auto simp: click_accepted_def handleCellClick_def Let_def updateStatus_def)

lemma click_gameMode: "gameMode (handleCellClick i s) = gameMode s"
  by (simp add: handleCellClick_def Let_def updateStatus_def)

lemma click_ends:
  assumes "click_accepted i s"
    and "checkForWin ((board s)[nat i := currentPlayer s])
         \<or> checkForDraw ((board s)[nat i := currentPlayer s])"
  shows "\<not> gameActive (handleCellClick i s)"
    and "currentPlayer (handleCellClick i s) = currentPlayer s"
    and "pending (handleCellClick i s) = pending s"
  using assms by (auto simp: click_accepted_def handleCellClick_def Let_def updateStatus_def)

lemma click_goes_on:
  assumes "click_accepted i s"
    and "\<not> checkForWin ((board s)[nat i := currentPlayer s])"
    and "\<not> checkForDraw ((board s)[nat i := currentPlayer s])"
  shows "gameActive (handleCellClick i s)"
    and "currentPlayer (handleCellClick i s) = (if currentPlayer s = ''X'' then ''O'' else ''X'')"
    and "pending (handleCellClick i s) =
           (if gameMode s = ''human-computer'' \<and> currentPlayer s = ''X''
            then Suc (pending s) else pending s)"
  using assms by (auto simp: click_accepted_def handleCellClick_def Let_def updateStatus_def)

lemma click_wins:
  assumes "click_accepted i s" and "checkForWin ((board s)[nat i := currentPlayer s])"
  shows "statusText (handleCellClick i s) = ''Player '' @ currentPlayer s @ '' Wins!''"
  using assms by (auto simp: click_accepted_def handleCellClick_def Let_def updateStatus_def)

lemma computer_not_moving: "\<not> computer_moves r s \<Longrightarrow> board (makeComputerMove r s) = board s"
  "\<not> computer_moves r s \<Longrightarrow> currentPlayer (makeComputerMove r s) = currentPlayer s"
  "\<not> computer_moves r s \<Longrightarrow> gameActive (makeComputerMove r s) = gameActive s"
  "\<not> computer_moves r s \<Longrightarrow> statusText (makeComputerMove r s) = statusText s"
  by (auto simp: computer_moves_def makeComputerMove_def)

lemma computer_board:
  "computer_moves r s \<Longrightarrow>
     board (makeComputerMove r s) = (board s)[nat (bestMove (board s) r) := ''O'']"
  by (simp add: computer_moves_def makeComputerMove_def Let_def updateStatus_def)

lemma computer_keeps: "gameMode (makeComputerMove r s) = gameMode s"
  "pending (makeComputerMove r s) = pending s"
  by (simp_all add: makeComputerMove_def Let_def updateStatus_def)

lemma computer_ends:
  assumes "computer_moves r s"
    and "checkForWin ((board s)[nat (bestMove (board s) r) := ''O''])
         \<or> checkForDraw ((board s)[nat (bestMove (board s) r) := ''O''])"
  shows "\<not> gameActive (makeComputerMove r s)"
    and "currentPlayer (makeComputerMove r s) = currentPlayer s"
  using assms by (auto simp: computer_moves_def makeComputerMove_def Let_def updateStatus_def)

lemma computer_goes_on:
  assumes "computer_moves r s"
    and "\<not> checkForWin ((board s)[nat (bestMove (board s) r) := ''O''])"
    and "\<not> checkForDraw ((board s)[nat (bestMove (board s) r) := ''O''])"
  shows "gameActive (makeComputerMove r s)"
    and "currentPlayer (makeComputerMove r s) = ''X''"
  using assms by (auto simp: computer_moves_def makeComputerMove_def Let_def updateStatus_def)

lemma computer_wins:
  assumes "computer_moves r s"
    and "checkForWin ((board s)[nat (bestMove (board s) r) := ''O''])"
  shows "statusText (makeComputerMove r s) = ''Player O Wins!''"
  using assms by (simp add: computer_moves_def makeComputerMove_def Let_def updateStatus_def)

lemma computer_moves_iff:
  assumes "length (board s) = 9 \<or> r < length (availableCells (board s))"
  shows "computer_moves r s \<longleftrightarrow> gameActive s \<and> '''' \<in> set (board s)"
proof -
  have "bestMove (board s) r \<noteq> - 1" if "'''' \<in> set (board s)"
    using bestMove_empty [OF that assms] by (auto simp: board_at_def)
  then show ?thesis by (auto simp: computer_moves_def availableCells_empty_iff)
qed

section \<open>Draw\<close>

lemma checkForDraw_iff:
  "length brd = 9 \<Longrightarrow>
     checkForDraw brd \<longleftrightarrow>
       (\<forall>l \<in> set winningCombinations. \<not> aligned brd l) \<and> (\<forall>n < 9. brd ! n \<noteq> '''')"
  by (auto simp: checkForDraw_def checkForWin_iff list_all_length)

text \<open>
  C2. On a board of nine cells, \<open>checkForDraw\<close> is true exactly when no winning line is
  matched and none of the nine cells is empty. A move that completes a line is reported
  as a win whether or not it fills the board: after an accepted click the status reads
  that the current player wins, not that the game is a draw, and the game is over; the
  same holds for a move of the computer. (\<open>checkForWin\<close> is asked before
  \<open>checkForDraw\<close>.)
\<close>

theorem draw_iff_full_without_line:
  "(length brd = 9 \<longrightarrow>
      (checkForDraw brd \<longleftrightarrow>
         (\<forall>l \<in> set winningCombinations. \<not> aligned brd l) \<and> (\<forall>n < 9. brd ! n \<noteq> '''')))
   \<and> (length (board s) = 9 \<and> board_at (board s) i = Some '''' \<and> gameActive s
        \<and> \<not> (gameMode s = ''human-computer'' \<and> currentPlayer s = ''O'')
        \<and> (\<exists>l \<in> set winningCombinations. aligned ((board s)[nat i := currentPlayer s]) l)
      \<longrightarrow> statusText (handleCellClick i s) = ''Player '' @ currentPlayer s @ '' Wins!''
          \<and> statusText (handleCellClick i s) \<noteq> ''It's a Draw!''
          \<and> \<not> gameActive (handleCellClick i s))
   \<and> (length (board s) = 9 \<and> '''' \<in> set (board s) \<and> gameActive s
        \<and> (\<exists>l \<in> set winningCombinations. aligned ((board s)[nat (bestMove (board s) r) := ''O'']) l)
      \<longrightarrow> statusText (makeComputerMove r s) = ''Player O Wins!''
          \<and> \<not> gameActive (makeComputerMove r s))"
proof (intro conjI impI)
  assume "length brd = 9"
  then show "checkForDraw brd \<longleftrightarrow>
      (\<forall>l \<in> set winningCombinations. \<not> aligned brd l) \<and> (\<forall>n < 9. brd ! n \<noteq> '''')"
    by (rule checkForDraw_iff)
next
  assume a: "length (board s) = 9 \<and> board_at (board s) i = Some '''' \<and> gameActive s
        \<and> \<not> (gameMode s = ''human-computer'' \<and> currentPlayer s = ''O'')
        \<and> (\<exists>l \<in> set winningCombinations. aligned ((board s)[nat i := currentPlayer s]) l)"
  then have acc: "click_accepted i s" by (simp add: click_accepted_def)
  from a have win: "checkForWin ((board s)[nat i := currentPlayer s])"
    by (simp add: checkForWin_iff)
  show "statusText (handleCellClick i s) = ''Player '' @ currentPlayer s @ '' Wins!''"
    by (rule click_wins [OF acc win])
  then show "statusText (handleCellClick i s) \<noteq> ''It's a Draw!''" by simp
  show "\<not> gameActive (handleCellClick i s)"
    using click_ends(1) [OF acc] win by blast
next
  assume a: "length (board s) = 9 \<and> '''' \<in> set (board s) \<and> gameActive s
        \<and> (\<exists>l \<in> set winningCombinations. aligned ((board s)[nat (bestMove (board s) r) := ''O'']) l)"
  then have mv: "computer_moves r s" by (simp add: computer_moves_iff)
  from a have win: "checkForWin ((board s)[nat (bestMove (board s) r) := ''O''])"
    by (simp add: checkForWin_iff)
  show "statusText (makeComputerMove r s) = ''Player O Wins!''"
    by (rule computer_wins [OF mv win])
  show "\<not> gameActive (makeComputerMove r s)"
    using computer_ends(1) [OF mv] win by blast
qed

text \<open>
  The full board without a line of the specification, and a game in which the ninth move
  fills the board and completes the diagonal 0-4-8.
\<close>

theorem draw_iff_full_without_line_witness:
  "length [''X'', ''O'', ''X'', ''O'', ''X'', ''O'', ''O'', ''X'', ''O''] = 9
   \<and> checkForDraw [''X'', ''O'', ''X'', ''O'', ''X'', ''O'', ''O'', ''X'', ''O'']
   \<and> board (play [Click 0, Click 1, Click 2, Click 3, Click 4, Click 5, Click 7, Click 6]
         (showGameScreen ''human-human'' pageLoaded))
       = [''X'', ''O'', ''X'', ''O'', ''X'', ''O'', ''O'', ''X'', '''']
   \<and> board (play [Click 0, Click 1, Click 2, Click 3, Click 4, Click 5, Click 7, Click 6, Click 8]
         (showGameScreen ''human-human'' pageLoaded))
       = [''X'', ''O'', ''X'', ''O'', ''X'', ''O'', ''O'', ''X'', ''X'']
   \<and> statusText (play [Click 0, Click 1, Click 2, Click 3, Click 4, Click 5, Click 7, Click 6, Click 8]
         (showGameScreen ''human-human'' pageLoaded))
       = ''Player X Wins!''
   \<and> \<not> gameActive (play [Click 0, Click 1, Click 2, Click 3, Click 4, Click 5, Click 7, Click 6, Click 8]
         (showGameScreen ''human-human'' pageLoaded))"
proof -
  let ?d = "[''X'', ''O'', ''X'', ''O'', ''X'', ''O'', ''O'', ''X'', ''O'']"
  let ?s = "play [Click 0, Click 1, Click 2, Click 3, Click 4, Click 5, Click 7, Click 6]
              (showGameScreen ''human-human'' pageLoaded)"
  have s: "?s = \<lparr>board = [''X'', ''O'', ''X'', ''O'', ''X'', ''O'', ''O'', ''X'', ''''], currentPlayer = ''X'',
      gameActive = True, gameMode = ''human-human'', statusText = ''Player X's Turn'',
      highlight = {}, pending = 0\<rparr>"
    by (simp add: handleCellClick_def game_defs winningCombinations_def board_at_def)
  have len: "length ?d = 9" by simp
  have d: "(\<forall>l \<in> set winningCombinations. \<not> aligned ?d l) \<and> (\<forall>n < 9. ?d ! n \<noteq> '''')"
    by (simp add: winningCombinations_def aligned_triple less_Suc_eq
      eval_nat_numeral)
  have l: "\<exists>l \<in> set winningCombinations. aligned ((board ?s)[nat 8 := currentPlayer ?s]) l"
    unfolding s by (simp add: winningCombinations_def aligned_triple)
  have pre: "length (board ?s) = 9 \<and> board_at (board ?s) 8 = Some '''' \<and> gameActive ?s
        \<and> \<not> (gameMode ?s = ''human-computer'' \<and> currentPlayer ?s = ''O'')"
    unfolding s by (simp add: board_at_def)
  from draw_iff_full_without_line [of ?d ?s 8] len d pre l
  have "checkForDraw ?d"
    and "statusText (handleCellClick 8 ?s) = ''Player '' @ currentPlayer ?s @ '' Wins!''"
    and "\<not> gameActive (handleCellClick 8 ?s)"
    by blast+
  moreover have "board (handleCellClick 8 ?s) = (board ?s)[nat 8 := currentPlayer ?s]"
    using pre by (intro click_board) (simp add: click_accepted_def)
  moreover have "play [Click 0, Click 1, Click 2, Click 3, Click 4, Click 5, Click 7, Click 6, Click 8]
         (showGameScreen ''human-human'' pageLoaded) = handleCellClick 8 ?s"
    by simp
  ultimately show ?thesis unfolding s by simp
qed

section \<open>The computer never overwrites a mark\<close>

text \<open>
  C10. On a board with an empty cell, the move chosen is the index of an empty cell: for
  every draw when the board has nine cells (the fallback is not reached), and in the
  fallback for every draw that is an index of \<open>availableCells\<close>. \<open>makeComputerMove\<close>
  writes its O there and nowhere else, so every cell that held a mark holds it afterwards.
\<close>

theorem computer_takes_empty_cell:
  assumes "'''' \<in> set (board s)"
    and "length (board s) = 9 \<or> r < length (availableCells (board s))"
  shows "board_at (board s) (bestMove (board s) r) = Some ''''
         \<and> (gameActive s \<longrightarrow>
              board (makeComputerMove r s) = (board s)[nat (bestMove (board s) r) := ''O''])
         \<and> (\<not> gameActive s \<longrightarrow> board (makeComputerMove r s) = board s)
         \<and> (\<forall>n < length (board s).
              board s ! n \<noteq> '''' \<longrightarrow> board (makeComputerMove r s) ! n = board s ! n)"
proof -
  have e: "board_at (board s) (bestMove (board s) r) = Some ''''"
    by (rule bestMove_empty [OF assms])
  have m: "computer_moves r s \<longleftrightarrow> gameActive s"
    using assms by (simp add: computer_moves_iff)
  have a: "board (makeComputerMove r s) = (board s)[nat (bestMove (board s) r) := ''O'']"
    if "gameActive s"
    using that m computer_board by simp
  have b: "board (makeComputerMove r s) = board s" if "\<not> gameActive s"
    using that m computer_not_moving(1) by simp
  have "board (makeComputerMove r s) ! n = board s ! n" if "board s ! n \<noteq> ''''" for n
  proof (cases "gameActive s")
    case True
    from e that have "nat (bestMove (board s) r) \<noteq> n" by (auto simp: board_at_empty_iff)
    with a [OF True] show ?thesis by simp
  next
    case False
    with b show ?thesis by simp
  qed
  with e a b show ?thesis by blast
qed

text \<open>
  The computer answers to X in the centre.
\<close>

theorem computer_takes_empty_cell_witness:
  "'''' \<in> set (board (handleCellClick 4 (showGameScreen ''human-computer'' pageLoaded)))
   \<and> length (board (handleCellClick 4 (showGameScreen ''human-computer'' pageLoaded))) = 9
   \<and> gameActive (handleCellClick 4 (showGameScreen ''human-computer'' pageLoaded))
   \<and> bestMove (board (handleCellClick 4 (showGameScreen ''human-computer'' pageLoaded))) 3 = 0
   \<and> board (makeComputerMove 3 (handleCellClick 4 (showGameScreen ''human-computer'' pageLoaded)))
       = [''O'', '''', '''', '''', ''X'', '''', '''', '''', '''']"
proof -
  let ?s = "handleCellClick 4 (showGameScreen ''human-computer'' pageLoaded)"
  have b: "board ?s = ['''', '''', '''', '''', ''X'', '''', '''', '''', '''']" and a: "gameActive ?s"
    by (simp_all add: handleCellClick_def game_defs winningCombinations_def board_at_def)
  have e: "'''' \<in> set (board ?s)" and len: "length (board ?s) = 9"
    by (simp_all add: b)
  have m: "bestMove (board ?s) 3 = 0"
    by (simp add: b bestMove_def policy_defs)
  from computer_takes_empty_cell [OF e, of 3] len a
  have "board (makeComputerMove 3 ?s) = (board ?s)[nat (bestMove (board ?s) 3) := ''O'']"
    by blast
  then have "board (makeComputerMove 3 ?s) = [''O'', '''', '''', '''', ''X'', '''', '''', '''', '''']"
    by (simp add: m) (simp add: b)
  with e len a m show ?thesis by simp
qed

section \<open>Whose turn it is\<close>

lemma turn_inv_init: "pending s = 0 \<Longrightarrow> turn_inv (initializeGame s) 0"
  by (simp add: turn_inv_def initializeGame_def updateStatus_def Let_def)

lemma turn_inv_click:
  assumes inv: "turn_inv s n"
  shows "turn_inv (handleCellClick i s)
           (n + (if board (handleCellClick i s) \<noteq> board s then 1 else 0))"
proof (cases "click_accepted i s")
  case False
  then show ?thesis using inv by (simp add: click_not_accepted)
next
  case True
  let ?b = "(board s)[nat i := currentPlayer s]"
  from inv have len: "length (board s) = 9"
    and cp: "currentPlayer s = (if even n then ''X'' else ''O'')"
    using True by (simp_all add: turn_inv_def click_accepted_def)
  from inv True have p: "pending s = 0"
    by (auto simp: turn_inv_def click_accepted_def)
  from True have cell: "0 \<le> i" "i < int (length (board s))" "board s ! nat i = ''''"
    by (simp_all add: click_accepted_def board_at_empty_iff)
  from cell cp have "?b \<noteq> board s"
    by (intro list_update_changes) (auto split: if_splits)
  then have ch: "board (handleCellClick i s) \<noteq> board s"
    by (simp add: click_board [OF True])
  show ?thesis
  proof (cases "checkForWin ?b \<or> checkForDraw ?b")
    case True
    from click_ends [OF \<open>click_accepted i s\<close> True] ch len cp p
    show ?thesis
      by (simp add: turn_inv_def click_board [OF \<open>click_accepted i s\<close>])
  next
    case False
    then have "\<not> checkForWin ?b" "\<not> checkForDraw ?b" by simp_all
    from click_goes_on [OF \<open>click_accepted i s\<close> this] ch len cp p
    show ?thesis
      by (simp add: turn_inv_def click_board [OF \<open>click_accepted i s\<close>] click_gameMode)
  qed
qed

lemma turn_inv_computer:
  assumes inv: "turn_inv s n" and turn: "gameActive s \<longrightarrow> currentPlayer s = ''O''"
    and p: "pending s = 0"
  shows "turn_inv (makeComputerMove r s)
           (n + (if board (makeComputerMove r s) \<noteq> board s then 1 else 0))"
proof (cases "computer_moves r s")
  case False
  with inv show ?thesis
    by (simp add: turn_inv_def computer_not_moving computer_keeps)
next
  case True
  let ?b = "(board s)[nat (bestMove (board s) r) := ''O'']"
  from inv have len: "length (board s) = 9" by (simp add: turn_inv_def)
  from True len have act: "gameActive s" and e: "'''' \<in> set (board s)"
    by (simp_all add: computer_moves_iff)
  from inv act turn have odd: "odd n" by (auto simp: turn_inv_def split: if_splits)
  from bestMove_empty [OF e] len
  have cell: "0 \<le> bestMove (board s) r" "bestMove (board s) r < int (length (board s))"
    "board s ! nat (bestMove (board s) r) = ''''"
    by (simp_all add: board_at_empty_iff)
  then have "?b \<noteq> board s" by (intro list_update_changes) auto
  then have ch: "board (makeComputerMove r s) \<noteq> board s"
    by (simp add: computer_board [OF True])
  show ?thesis
  proof (cases "checkForWin ?b \<or> checkForDraw ?b")
    case True
    from computer_ends [OF \<open>computer_moves r s\<close> True] ch len odd p turn act
    show ?thesis
      by (simp add: turn_inv_def computer_board [OF \<open>computer_moves r s\<close>] computer_keeps)
  next
    case False
    then have "\<not> checkForWin ?b" "\<not> checkForDraw ?b" by simp_all
    from computer_goes_on [OF \<open>computer_moves r s\<close> this] ch len odd p
    show ?thesis
      by (simp add: turn_inv_def computer_board [OF \<open>computer_moves r s\<close>] computer_keeps)
  qed
qed

lemma turn_inv_fire:
  assumes inv: "turn_inv s n"
  shows "turn_inv (fire r s) (n + (if board (fire r s) \<noteq> board s then 1 else 0))"
proof (cases "pending s = 0")
  case True
  with inv show ?thesis by (simp add: fire_def)
next
  case False
  with inv have p: "pending s = 1" and act: "gameActive s" and o: "currentPlayer s = ''O''"
    by (auto simp: turn_inv_def)
  let ?s = "s\<lparr>pending := pending s - 1\<rparr>"
  from inv p have "turn_inv ?s n" by (auto simp: turn_inv_def split: if_splits)
  from turn_inv_computer [OF this, of r] o p False show ?thesis by (simp add: fire_def)
qed

lemma turn_inv_step:
  "turn_inv s n \<Longrightarrow> turn_inv (step m s) (n + (if board (step m s) \<noteq> board s then 1 else 0))"
  by (cases m) (simp_all add: turn_inv_click turn_inv_fire)

lemma turn_inv_play: "turn_inv s n \<Longrightarrow> turn_inv (play ms s) (n + accepted ms s)"
proof (induction ms arbitrary: s n)
  case Nil
  then show ?case by simp
next
  case (Cons m ms)
  from turn_inv_step [OF Cons.prems, of m]
  have "turn_inv (step m s) (n + (if board (step m s) \<noteq> board s then 1 else 0))" .
  from Cons.IH [OF this] show ?case by (simp add: add.assoc)
qed

lemma game_over_stays:
  assumes "turn_inv s n" and "\<not> gameActive s"
  shows "step m s = s"
proof -
  from assms have p: "pending s = 0" by (auto simp: turn_inv_def)
  show ?thesis
  proof (cases m)
    case (Click i)
    with assms(2) show ?thesis by (simp add: handleCellClick_def)
  next
    case (Fire r)
    with p show ?thesis by (simp add: fire_def)
  qed
qed

text \<open>
  In a game that starts with no call of \<open>makeComputerMove\<close> left scheduled, in either
  mode: while the game is active, \<open>currentPlayer\<close> is X after an even number of accepted
  moves and O after an odd number; once it is over, \<open>currentPlayer\<close> is still the player
  of the last accepted move, and no click and no timer changes the state any more.
\<close>

lemma turn_alternates_without_stale_timer:
  assumes "pending s0 = 0"
  shows "(gameActive (play ms (initializeGame s0)) \<longrightarrow>
            currentPlayer (play ms (initializeGame s0)) =
              (if even (accepted ms (initializeGame s0)) then ''X'' else ''O''))
         \<and> (\<not> gameActive (play ms (initializeGame s0)) \<longrightarrow>
            currentPlayer (play ms (initializeGame s0)) =
              (if even (accepted ms (initializeGame s0)) then ''O'' else ''X'')
            \<and> (\<forall>m. step m (play ms (initializeGame s0)) = play ms (initializeGame s0)))"
proof -
  from turn_inv_play [OF turn_inv_init [OF assms], of ms]
  have inv: "turn_inv (play ms (initializeGame s0)) (accepted ms (initializeGame s0))"
    by simp
  then show ?thesis using game_over_stays [OF inv] by (simp add: turn_inv_def)
qed

section \<open>A timer that outlives a reset\<close>

text \<open>
  C1. The human starts a game against the computer and clicks cell 0, which schedules the
  computer's move; before the timer runs out the game is reset by
  \<open>showModeSelectionScreen\<close>. The reset leaves the call scheduled, and when it runs it finds
  \<open>gameActive\<close> true again: it puts an O in the centre of the fresh board.
\<close>

theorem stale_move_marks_reset_board:
  "board (showModeSelectionScreen (handleCellClick 0 (showGameScreen ''human-computer'' s)))
     = ['''', '''', '''', '''', '''', '''', '''', '''', '''']
   \<and> pending (showModeSelectionScreen (handleCellClick 0 (showGameScreen ''human-computer'' s)))
     = Suc (pending s)
   \<and> gameMode (showModeSelectionScreen (handleCellClick 0 (showGameScreen ''human-computer'' s)))
     = ''human-human''
   \<and> board (fire r (showModeSelectionScreen
         (handleCellClick 0 (showGameScreen ''human-computer'' s))))
     = ['''', '''', '''', '''', ''O'', '''', '''', '''', '''']"
  by (simp add: move_defs game_defs policy_defs Let_def)

theorem stale_move_marks_reset_board_witness:
  "board (showModeSelectionScreen (handleCellClick 0 (showGameScreen ''human-computer'' pageLoaded)))
     = ['''', '''', '''', '''', '''', '''', '''', '''', '''']
   \<and> board (fire 0 (showModeSelectionScreen
         (handleCellClick 0 (showGameScreen ''human-computer'' pageLoaded))))
     = ['''', '''', '''', '''', ''O'', '''', '''', '''', '''']"
  using stale_move_marks_reset_board [of pageLoaded 0] by simp

text \<open>
  C5. The same timer breaks the alternation of \<open>currentPlayer\<close>. A new game is started
  (\<open>initializeGame\<close>) while the call scheduled by the click on cell 0 is still waiting.
  The first accepted move of the new game is then the computer's O in the centre, made
  while \<open>currentPlayer\<close> is X, and after it \<open>currentPlayer\<close> is X again: before the second
  accepted move it is not O. Without such a left-over call the alternation holds
  (\<open>turn_alternates_without_stale_timer\<close>).
\<close>

theorem stale_move_breaks_alternation:
  "currentPlayer (initializeGame (handleCellClick 0 (showGameScreen ''human-computer'' s))) = ''X''
   \<and> accepted [Fire r] (initializeGame (handleCellClick 0 (showGameScreen ''human-computer'' s))) = 1
   \<and> board (play [Fire r] (initializeGame (handleCellClick 0 (showGameScreen ''human-computer'' s))))
       = ['''', '''', '''', '''', ''O'', '''', '''', '''', '''']
   \<and> gameActive (play [Fire r]
         (initializeGame (handleCellClick 0 (showGameScreen ''human-computer'' s))))
   \<and> currentPlayer (play [Fire r]
         (initializeGame (handleCellClick 0 (showGameScreen ''human-computer'' s)))) = ''X''"
  by (simp add: move_defs game_defs policy_defs Let_def)

theorem stale_move_breaks_alternation_witness:
  "accepted [Fire 0]
      (initializeGame (handleCellClick 0 (showGameScreen ''human-computer'' pageLoaded))) = 1
   \<and> gameActive (play [Fire 0]
         (initializeGame (handleCellClick 0 (showGameScreen ''human-computer'' pageLoaded))))
   \<and> currentPlayer (play [Fire 0]
         (initializeGame (handleCellClick 0 (showGameScreen ''human-computer'' pageLoaded)))) = ''X''"
  using stale_move_breaks_alternation [of pageLoaded 0] by blast

end
